theory Spec2Isabelle
  imports Main
begin

section \<open>Data model (shared/schema.ts)\<close>

text \<open>
  Every table of the schema is a list of rows in insertion order.  A \<open>serial\<close> primary key
  is an \<open>int\<close> drawn from a per-table sequence, a \<open>timestamp\<close> is an \<open>int\<close> (a point on the
  clock), a nullable column is an \<open>option\<close>.  Field names carry the table as a prefix where
  the schema reuses a column name (\<open>id\<close>, \<open>userId\<close>, \<open>createdAt\<close>, ...).
\<close>

record User =
  user_id :: int
  username :: string
  password :: string
  displayName :: "string option"
  bio :: "string option"
  avatarUrl :: "string option"
  user_createdAt :: int

record Vibe =
  vibe_id :: int
  vibe_userId :: int
  vibe_content :: "string option"
  mediaUrl :: "string option"
  mediaType :: "string option"
  hashtags :: "string list option"
  vibe_createdAt :: int

record Comment =
  comment_id :: int
  comment_vibeId :: int
  comment_userId :: int
  comment_content :: string
  comment_createdAt :: int

record Like =
  like_id :: int
  like_vibeId :: int
  like_userId :: int
  isLike :: bool
  like_createdAt :: int

record Connection =
  conn_id :: int
  conn_userId :: int
  connectedToId :: int
  status :: string
  conn_createdAt :: int

record Notification =
  notif_id :: int
  notif_userId :: int
  notif_type :: string
  fromUserId :: "int option"
  entityId :: "int option"
  notif_content :: "string option"
  notif_isRead :: bool
  notif_createdAt :: int

record Message =
  msg_id :: int
  senderId :: int
  receiverId :: int
  msg_content :: string
  msg_isRead :: bool
  msg_createdAt :: int

record Quest =
  quest_id :: int
  quest_title :: string
  quest_description :: "string option"
  xpReward :: int
  relatedModuleId :: "int option"
  quest_createdAt :: int

record UserQuestProgress =
  uqp_id :: int
  uqp_userId :: int
  uqp_questId :: int
  completed :: bool
  completedAt :: "int option"

record UserLevel =
  ul_id :: int
  ul_userId :: int
  level :: int
  xp :: int
  updatedAt :: int

text \<open>The database: the tables the modelled operations read or write, and the sequence
  behind each \<open>serial\<close> column they draw from.\<close>

record Db =
  users :: "User list"
  vibes :: "Vibe list"
  comments :: "Comment list"
  likes :: "Like list"
  connections :: "Connection list"
  notifications :: "Notification list"
  messages :: "Message list"
  quests :: "Quest list"
  userQuestProgress :: "UserQuestProgress list"
  userLevel :: "UserLevel list"
  comments_seq :: int
  likes_seq :: int
  connections_seq :: int
  notifications_seq :: int
  messages_seq :: int

text \<open>An exception that reaches \<open>next(error)\<close>: a violated foreign key of the schema
  (\<open>references(() => users.id)\<close> and friends), named by its column, or the \<open>TypeError\<close> of
  calling a member that the object does not have, with its message.\<close>

datatype error = ForeignKeyViolation string | TypeError string

text \<open>What a route handler sends: \<open>res.status(c).json(v)\<close>, \<open>res.status(c).json({message})\<close>,
  \<open>res.sendStatus(c)\<close>, or the error handed to \<open>next\<close>.\<close>

datatype 'a response =
    Json nat 'a
  | Message nat string
  | SendStatus nat
  | NextError error

section \<open>Storage layer (server/storage.ts, class DatabaseStorage)\<close>

subsection \<open>Users\<close>

definition getUser :: "Db \<Rightarrow> int \<Rightarrow> User option" where
  "getUser s i = find (\<lambda>u. user_id u = i) (users s)"

text \<open>\<open>passport.deserializeUser\<close> (server/auth.ts): the session carries a user id, and
  \<open>req.user\<close> is the row found for it; \<open>req.isAuthenticated()\<close> holds when there is one.\<close>

definition deserializeUser :: "Db \<Rightarrow> int option \<Rightarrow> User option" where
  "deserializeUser s sess = (case sess of None \<Rightarrow> None | Some i \<Rightarrow> getUser s i)"

definition userExists :: "Db \<Rightarrow> int \<Rightarrow> bool" where
  "userExists s i = (i \<in> set (map user_id (users s)))"

subsection \<open>Vibes\<close>

definition getVibeById :: "Db \<Rightarrow> int \<Rightarrow> Vibe option" where
  "getVibeById s i = find (\<lambda>v. vibe_id v = i) (vibes s)"

definition vibeExists :: "Db \<Rightarrow> int \<Rightarrow> bool" where
  "vibeExists s i = (i \<in> set (map vibe_id (vibes s)))"

text \<open>\<open>count(likes.id)\<close> over the left join \<open>likes.vibeId = vibes.id AND likes.isLike = true\<close>,
  for the group of one vibe.\<close>

definition likes_count :: "Db \<Rightarrow> int \<Rightarrow> nat" where
  "likes_count s vid = length (filter (\<lambda>l. like_vibeId l = vid \<and> isLike l) (likes s))"

text \<open>
  \<open>getTrendingVibes\<close>.  The first query yields one row \<open>(vibeId, likes)\<close> per vibe (the group
  key is the primary key), ordered by the count descending and cut at \<open>limit\<close>; the second
  query fetches the vibes with those ids, ordered by \<open>createdAt\<close> descending.  The database
  leaves the order of rows with equal keys open: here such rows keep their table order
  (\<open>sort_key\<close> is stable).  \<open>limit\<close> is a row count, a \<open>nat\<close>.
\<close>

definition getTrendingVibes :: "Db \<Rightarrow> nat \<Rightarrow> Vibe list" where
  "getTrendingVibes s limit =
     (let result = take limit
            (sort_key (\<lambda>r. - int (snd r))
               (map (\<lambda>v. (vibe_id v, likes_count s (vibe_id v))) (vibes s)));
          vibeIds = map fst result
      in if length vibeIds = 0 then []
         else sort_key (\<lambda>v. - vibe_createdAt v)
                (filter (\<lambda>v. vibe_id v \<in> set vibeIds) (vibes s)))"

text \<open>\<open>getVibesByHashtag\<close>: \<open>hashtags @> ARRAY[hashtag]\<close> holds when the array column is not
  null and has an element equal to \<open>hashtag\<close>; newest first.\<close>

definition getVibesByHashtag :: "Db \<Rightarrow> string \<Rightarrow> Vibe list" where
  "getVibesByHashtag s hashtag =
     sort_key (\<lambda>v. - vibe_createdAt v)
       (filter (\<lambda>v. case hashtags v of None \<Rightarrow> False | Some tags \<Rightarrow> hashtag \<in> set tags)
          (vibes s))"

subsection \<open>Comments\<close>

text \<open>An insert draws the next value of the table's sequence (also when the row is then
  rejected), fills \<open>createdAt\<close> with the clock, and fails on a dangling foreign key.\<close>

definition createComment ::
  "Db \<Rightarrow> int \<Rightarrow> int \<Rightarrow> string \<Rightarrow> int \<Rightarrow> (error + Comment) \<times> Db" where
  "createComment s vibeId userId content now =
     (let s1 = s\<lparr>comments_seq := comments_seq s + 1\<rparr>;
          row = \<lparr>comment_id = comments_seq s, comment_vibeId = vibeId, comment_userId = userId,
                 comment_content = content, comment_createdAt = now\<rparr>
      in if \<not> vibeExists s vibeId then (Inl (ForeignKeyViolation ''vibe_id''), s1)
         else if \<not> userExists s userId then (Inl (ForeignKeyViolation ''user_id''), s1)
         else (Inr row, s1\<lparr>comments := comments s @ [row]\<rparr>))"

subsection \<open>Likes\<close>

definition getLikeByUserAndVibe :: "Db \<Rightarrow> int \<Rightarrow> int \<Rightarrow> Like option" where
  "getLikeByUserAndVibe s userId vibeId =
     find (\<lambda>l. like_userId l = userId \<and> like_vibeId l = vibeId) (likes s)"

text \<open>\<open>createOrUpdateLike\<close>: when a row for the user and the vibe exists, its \<open>isLike\<close> is
  overwritten (\<open>where likes.id = existingLike.id\<close>) and the first updated row returned;
  otherwise a row is inserted.\<close>

definition createOrUpdateLike ::
  "Db \<Rightarrow> int \<Rightarrow> int \<Rightarrow> bool \<Rightarrow> int \<Rightarrow> (error + Like option) \<times> Db" where
  "createOrUpdateLike s vibeId userId isLike' now =
     (case getLikeByUserAndVibe s userId vibeId of
        Some existingLike \<Rightarrow>
          (let rows = map (\<lambda>l. if like_id l = like_id existingLike
                                 then l\<lparr>isLike := isLike'\<rparr> else l) (likes s)
           in (Inr (find (\<lambda>l. like_id l = like_id existingLike) rows), s\<lparr>likes := rows\<rparr>))
      | None \<Rightarrow>
          (let s1 = s\<lparr>likes_seq := likes_seq s + 1\<rparr>;
               row = \<lparr>like_id = likes_seq s, like_vibeId = vibeId, like_userId = userId,
                      isLike = isLike', like_createdAt = now\<rparr>
           in if \<not> vibeExists s vibeId then (Inl (ForeignKeyViolation ''vibe_id''), s1)
              else if \<not> userExists s userId then (Inl (ForeignKeyViolation ''user_id''), s1)
              else (Inr (Some row), s1\<lparr>likes := likes s @ [row]\<rparr>)))"

subsection \<open>Connections\<close>

definition createConnection ::
  "Db \<Rightarrow> int \<Rightarrow> int \<Rightarrow> string \<Rightarrow> int \<Rightarrow> (error + Connection) \<times> Db" where
  "createConnection s userId connectedToId' status' now =
     (let s1 = s\<lparr>connections_seq := connections_seq s + 1\<rparr>;
          row = \<lparr>conn_id = connections_seq s, conn_userId = userId,
                 connectedToId = connectedToId', status = status', conn_createdAt = now\<rparr>
      in if \<not> userExists s userId then (Inl (ForeignKeyViolation ''user_id''), s1)
         else if \<not> userExists s connectedToId'
           then (Inl (ForeignKeyViolation ''connected_to_id''), s1)
         else (Inr row, s1\<lparr>connections := connections s @ [row]\<rparr>))"

definition getConnectionById :: "Db \<Rightarrow> int \<Rightarrow> Connection option" where
  "getConnectionById s i = find (\<lambda>c. conn_id c = i) (connections s)"

definition getConnectionByUsers :: "Db \<Rightarrow> int \<Rightarrow> int \<Rightarrow> Connection option" where
  "getConnectionByUsers s userId connectedToId' =
     find (\<lambda>c. conn_userId c = userId \<and> connectedToId c = connectedToId') (connections s)"

definition updateConnectionStatus :: "Db \<Rightarrow> int \<Rightarrow> string \<Rightarrow> Connection option \<times> Db" where
  "updateConnectionStatus s i status' =
     (let rows = map (\<lambda>c. if conn_id c = i then c\<lparr>status := status'\<rparr> else c) (connections s)
      in (find (\<lambda>c. conn_id c = i) rows, s\<lparr>connections := rows\<rparr>))"

subsection \<open>Notifications\<close>

definition createNotification ::
  "Db \<Rightarrow> int \<Rightarrow> string \<Rightarrow> int option \<Rightarrow> int option \<Rightarrow> string option \<Rightarrow> bool \<Rightarrow> int
     \<Rightarrow> (error + Notification) \<times> Db" where
  "createNotification s userId type' fromUserId' entityId' content isRead now =
     (let s1 = s\<lparr>notifications_seq := notifications_seq s + 1\<rparr>;
          row = \<lparr>notif_id = notifications_seq s, notif_userId = userId, notif_type = type',
                 fromUserId = fromUserId', entityId = entityId', notif_content = content,
                 notif_isRead = isRead, notif_createdAt = now\<rparr>
      in if \<not> userExists s userId then (Inl (ForeignKeyViolation ''user_id''), s1)
         else if (case fromUserId' of None \<Rightarrow> False | Some f \<Rightarrow> \<not> userExists s f)
           then (Inl (ForeignKeyViolation ''from_user_id''), s1)
         else (Inr row, s1\<lparr>notifications := notifications s @ [row]\<rparr>))"

subsection \<open>Messages\<close>

definition createMessage ::
  "Db \<Rightarrow> int \<Rightarrow> int \<Rightarrow> string \<Rightarrow> bool \<Rightarrow> int \<Rightarrow> (error + Message) \<times> Db" where
  "createMessage s senderId' receiverId' content isRead now =
     (let s1 = s\<lparr>messages_seq := messages_seq s + 1\<rparr>;
          row = \<lparr>msg_id = messages_seq s, senderId = senderId', receiverId = receiverId',
                 msg_content = content, msg_isRead = isRead, msg_createdAt = now\<rparr>
      in if \<not> userExists s senderId' then (Inl (ForeignKeyViolation ''sender_id''), s1)
         else if \<not> userExists s receiverId' then (Inl (ForeignKeyViolation ''receiver_id''), s1)
         else (Inr row, s1\<lparr>messages := messages s @ [row]\<rparr>))"

section \<open>Route handlers (server/routes.ts)\<close>

subsection \<open>GET /api/users/:id\<close>

datatype json = JNull | JNum int | JStr string | JBool bool

definition json_opt :: "string option \<Rightarrow> json" where
  "json_opt v = (case v of None \<Rightarrow> JNull | Some x \<Rightarrow> JStr x)"

text \<open>A user row as the object the driver returns: its own properties, in column order.\<close>

definition user_object :: "User \<Rightarrow> (string \<times> json) list" where
  "user_object u =
     [(''id'', JNum (user_id u)),
      (''username'', JStr (username u)),
      (''password'', JStr (password u)),
      (''displayName'', json_opt (displayName u)),
      (''bio'', json_opt (bio u)),
      (''avatarUrl'', json_opt (avatarUrl u)),
      (''createdAt'', JNum (user_createdAt u))]"

text \<open>\<open>const { password, ...userWithoutPassword } = user\<close>: the rest object holds every own
  property but \<open>password\<close>.\<close>

definition userWithoutPassword :: "(string \<times> json) list \<Rightarrow> (string \<times> json) list" where
  "userWithoutPassword obj = filter (\<lambda>kv. fst kv \<noteq> ''password'') obj"

definition get_user_by_id :: "Db \<Rightarrow> int \<Rightarrow> (string \<times> json) list response" where
  "get_user_by_id s userId =
     (case getUser s userId of
        None \<Rightarrow> Message 404 ''User not found''
      | Some user \<Rightarrow> Json 200 (userWithoutPassword (user_object user)))"

text \<open>
  The handlers below take the database, the user id held by the session (\<open>None\<close>: no
  session), the numeric path parameter, the body fields (\<open>None\<close> where the body lacks the
  field or holds a value the insert schema rejects: the \<open>ZodError\<close> branch) and the clock,
  and return the response with the database afterwards.
\<close>

subsection \<open>POST /api/vibes/:vibeId/comments\<close>

definition post_comment ::
  "Db \<Rightarrow> int option \<Rightarrow> int \<Rightarrow> string option \<Rightarrow> int \<Rightarrow> Comment response \<times> Db" where
  "post_comment s sess vibeId body_content now =
     (case deserializeUser s sess of
        None \<Rightarrow> (SendStatus 401, s)
      | Some user \<Rightarrow>
         (case body_content of
            None \<Rightarrow> (Message 400 ''Invalid comment data'', s)
          | Some content \<Rightarrow>
             (case createComment s vibeId (user_id user) content now of
                (Inl e, s1) \<Rightarrow> (NextError e, s1)
              | (Inr comment, s1) \<Rightarrow>
                 (case getVibeById s1 vibeId of
                    None \<Rightarrow> (Json 201 comment, s1)
                  | Some vibe \<Rightarrow>
                     if vibe_userId vibe \<noteq> user_id user then
                       (case createNotification s1 (vibe_userId vibe) ''comment''
                               (Some (user_id user)) (Some vibeId) (Some content) False now of
                          (Inl e, s2) \<Rightarrow> (NextError e, s2)
                        | (Inr n, s2) \<Rightarrow> (Json 201 comment, s2))
                     else (Json 201 comment, s1)))))"

subsection \<open>POST /api/vibes/:vibeId/like\<close>

definition post_like ::
  "Db \<Rightarrow> int option \<Rightarrow> int \<Rightarrow> bool option \<Rightarrow> int \<Rightarrow> Like option response \<times> Db" where
  "post_like s sess vibeId body_isLike now =
     (case deserializeUser s sess of
        None \<Rightarrow> (SendStatus 401, s)
      | Some user \<Rightarrow>
         (case body_isLike of
            None \<Rightarrow> (Message 400 ''Invalid like data'', s)
          | Some isLike' \<Rightarrow>
             (case createOrUpdateLike s vibeId (user_id user) isLike' now of
                (Inl e, s1) \<Rightarrow> (NextError e, s1)
              | (Inr like, s1) \<Rightarrow>
                 (case getVibeById s1 vibeId of
                    None \<Rightarrow> (Json 201 like, s1)
                  | Some vibe \<Rightarrow>
                     if vibe_userId vibe \<noteq> user_id user \<and> isLike' then
                       (case createNotification s1 (vibe_userId vibe) ''like''
                               (Some (user_id user)) (Some vibeId) None False now of
                          (Inl e, s2) \<Rightarrow> (NextError e, s2)
                        | (Inr n, s2) \<Rightarrow> (Json 201 like, s2))
                     else (Json 201 like, s1)))))"

subsection \<open>POST /api/connections\<close>

text \<open>\<open>insertConnectionSchema\<close> is the insert schema of the table cut to \<open>userId\<close>,
  \<open>connectedToId\<close> and \<open>status\<close>: it checks that each is present with the column's type,
  nothing more.\<close>

definition post_connection ::
  "Db \<Rightarrow> int option \<Rightarrow> int option \<Rightarrow> int \<Rightarrow> Connection response \<times> Db" where
  "post_connection s sess body_connectedToId now =
     (case deserializeUser s sess of
        None \<Rightarrow> (SendStatus 401, s)
      | Some user \<Rightarrow>
         (case body_connectedToId of
            None \<Rightarrow> (Message 400 ''Invalid connection data'', s)
          | Some connectedToId' \<Rightarrow>
             (case getConnectionByUsers s (user_id user) connectedToId' of
                Some existingConnection \<Rightarrow> (Message 400 ''Connection already exists'', s)
              | None \<Rightarrow>
                 (case createConnection s (user_id user) connectedToId' ''pending'' now of
                    (Inl e, s1) \<Rightarrow> (NextError e, s1)
                  | (Inr connection, s1) \<Rightarrow>
                     (case createNotification s1 connectedToId' ''connection_request''
                             (Some (user_id user)) (Some (conn_id connection)) None False now of
                        (Inl e, s2) \<Rightarrow> (NextError e, s2)
                      | (Inr n, s2) \<Rightarrow> (Json 201 connection, s2))))))"

subsection \<open>PUT /api/connections/:id\<close>

definition put_connection ::
  "Db \<Rightarrow> int option \<Rightarrow> int \<Rightarrow> string \<Rightarrow> int \<Rightarrow> Connection option response \<times> Db" where
  "put_connection s sess connectionId body_status now =
     (case deserializeUser s sess of
        None \<Rightarrow> (SendStatus 401, s)
      | Some user \<Rightarrow>
         if body_status \<notin> set [''accepted'', ''rejected''] then (Message 400 ''Invalid status'', s)
         else
           (case getConnectionById s connectionId of
              None \<Rightarrow> (Message 404 ''Connection not found'', s)
            | Some connection \<Rightarrow>
               if connectedToId connection \<noteq> user_id user
               then (Message 403 ''Not authorized to update this connection'', s)
               else
                 (case updateConnectionStatus s connectionId body_status of
                    (updatedConnection, s1) \<Rightarrow>
                      if body_status = ''accepted'' then
                        (case createNotification s1 (conn_userId connection)
                                ''connection_accepted'' (Some (user_id user))
                                (Some (conn_id connection)) None False now of
                           (Inl e, s2) \<Rightarrow> (NextError e, s2)
                         | (Inr n, s2) \<Rightarrow> (Json 200 updatedConnection, s2))
                      else (Json 200 updatedConnection, s1))))"

subsection \<open>POST /api/messages\<close>

definition post_message ::
  "Db \<Rightarrow> int option \<Rightarrow> int option \<Rightarrow> string option \<Rightarrow> int \<Rightarrow> Message response \<times> Db" where
  "post_message s sess body_receiverId body_content now =
     (case deserializeUser s sess of
        None \<Rightarrow> (SendStatus 401, s)
      | Some user \<Rightarrow>
         (case (body_receiverId, body_content) of
            (Some receiverId', Some content) \<Rightarrow>
              (case createMessage s (user_id user) receiverId' content False now of
                 (Inl e, s1) \<Rightarrow> (NextError e, s1)
               | (Inr message, s1) \<Rightarrow>
                  (case createNotification s1 receiverId' ''message'' (Some (user_id user))
                          (Some (msg_id message)) (Some (take 50 content)) False now of
                     (Inl e, s2) \<Rightarrow> (NextError e, s2)
                   | (Inr n, s2) \<Rightarrow> (Json 201 message, s2)))
          | _ \<Rightarrow> (Message 400 ''Invalid message data'', s)))"

subsection \<open>POST /api/learning/quests/:questId/complete\<close>

text \<open>
  The handler calls \<open>storage.completeUserQuest\<close>, \<open>storage.getQuestById\<close> and
  \<open>storage.addUserXp\<close>.  The interface \<open>IStorage\<close> declares the three; \<open>storage\<close> is
  \<open>new DatabaseStorage()\<close>, and the body of that class defines the user, vibe, comment,
  like, connection, notification and message operations and none of the learning ones.
  A member that an object lacks is \<open>undefined\<close>, and calling it raises a \<open>TypeError\<close>.

  The storage object is therefore a record of the three members: \<open>None\<close> where the object
  has no such method, otherwise the method, a function of the database and the arguments
  (and the clock, for a write) that returns its value or raises, with the database
  afterwards.
\<close>

record IStorage =
  completeUserQuest ::
    "(Db \<Rightarrow> int \<Rightarrow> int \<Rightarrow> int \<Rightarrow> (error + UserQuestProgress) \<times> Db) option"
  getQuestById :: "(Db \<Rightarrow> int \<Rightarrow> (error + Quest option) \<times> Db) option"
  addUserXp :: "(Db \<Rightarrow> int \<Rightarrow> int \<Rightarrow> int \<Rightarrow> (error + UserLevel) \<times> Db) option"

text \<open>The class of server/storage.ts: it has none of the three.\<close>

definition DatabaseStorage :: IStorage where
  "DatabaseStorage = \<lparr>completeUserQuest = None, getQuestById = None, addUserXp = None\<rparr>"

text \<open>The three calls \<open>storage.m(...)\<close> of the handler.\<close>

definition call_completeUserQuest ::
  "IStorage \<Rightarrow> Db \<Rightarrow> int \<Rightarrow> int \<Rightarrow> int \<Rightarrow> (error + UserQuestProgress) \<times> Db" where
  "call_completeUserQuest storage s userId questId now =
     (case completeUserQuest storage of
        None \<Rightarrow> (Inl (TypeError ''storage.completeUserQuest is not a function''), s)
      | Some m \<Rightarrow> m s userId questId now)"

definition call_getQuestById :: "IStorage \<Rightarrow> Db \<Rightarrow> int \<Rightarrow> (error + Quest option) \<times> Db" where
  "call_getQuestById storage s questId =
     (case getQuestById storage of
        None \<Rightarrow> (Inl (TypeError ''storage.getQuestById is not a function''), s)
      | Some m \<Rightarrow> m s questId)"

definition call_addUserXp ::
  "IStorage \<Rightarrow> Db \<Rightarrow> int \<Rightarrow> int \<Rightarrow> int \<Rightarrow> (error + UserLevel) \<times> Db" where
  "call_addUserXp storage s userId amount now =
     (case addUserXp storage of
        None \<Rightarrow> (Inl (TypeError ''storage.addUserXp is not a function''), s)
      | Some m \<Rightarrow> m s userId amount now)"

text \<open>The handler: complete the quest, then fetch the quest and, when it exists and its
  \<open>xpReward\<close> is truthy (not 0), add the reward to the user's XP; whatever is raised on the
  way goes to \<open>next\<close>.\<close>

definition complete_quest ::
  "IStorage \<Rightarrow> Db \<Rightarrow> int option \<Rightarrow> int \<Rightarrow> int \<Rightarrow> UserQuestProgress response \<times> Db" where
  "complete_quest storage s sess questId now =
     (case deserializeUser s sess of
        None \<Rightarrow> (SendStatus 401, s)
      | Some user \<Rightarrow>
         (case call_completeUserQuest storage s (user_id user) questId now of
            (Inl e, s1) \<Rightarrow> (NextError e, s1)
          | (Inr updatedProgress, s1) \<Rightarrow>
             (case call_getQuestById storage s1 questId of
                (Inl e, s2) \<Rightarrow> (NextError e, s2)
              | (Inr None, s2) \<Rightarrow> (Json 200 updatedProgress, s2)
              | (Inr (Some quest), s2) \<Rightarrow>
                 if xpReward quest \<noteq> 0 then
                   (case call_addUserXp storage s2 (user_id user) (xpReward quest) now of
                      (Inl e, s3) \<Rightarrow> (NextError e, s3)
                    | (Inr l, s3) \<Rightarrow> (Json 200 updatedProgress, s3))
                 else (Json 200 updatedProgress, s2))))"

text \<open>Two calls of the handler by the same session for the same quest, one after the
  other: both responses, and the database after each.\<close>

definition complete_quest_twice ::
  "IStorage \<Rightarrow> Db \<Rightarrow> int option \<Rightarrow> int \<Rightarrow> int \<Rightarrow> int
     \<Rightarrow> (UserQuestProgress response \<times> Db) \<times> (UserQuestProgress response \<times> Db)" where
  "complete_quest_twice storage s sess questId now1 now2 =
     (let first = complete_quest storage s sess questId now1;
          second = complete_quest storage (snd first) sess questId now2
      in (first, second))"

section \<open>The specification's wording, for comparison\<close>

text \<open>``\<open>queryByTag(tag)\<close>: exact, case-insensitive membership against a ContentItem's tag
  set, newest first'': two tags are compared after folding the ASCII capitals.\<close>

definition lower_char :: "char \<Rightarrow> char" where
  "lower_char c =
     (case map_of (zip ''ABCDEFGHIJKLMNOPQRSTUVWXYZ'' ''abcdefghijklmnopqrstuvwxyz'') c of
        None \<Rightarrow> c | Some l \<Rightarrow> l)"

definition lower :: "string \<Rightarrow> string" where
  "lower t = map lower_char t"

definition queryByTag_spec :: "Db \<Rightarrow> string \<Rightarrow> Vibe list" where
  "queryByTag_spec s tag =
     sort_key (\<lambda>v. - vibe_createdAt v)
       (filter (\<lambda>v. case hashtags v of None \<Rightarrow> False
                     | Some tags \<Rightarrow> lower tag \<in> set (map lower tags))
          (vibes s))"

section \<open>Invariants and observations\<close>

text \<open>The rows of the likes table for a vibe and a user.\<close>

definition reactionsOf :: "Db \<Rightarrow> int \<Rightarrow> int \<Rightarrow> Like list" where
  "reactionsOf s vibeId userId =
     filter (\<lambda>l. like_vibeId l = vibeId \<and> like_userId l = userId) (likes s)"

definition likes_unique :: "Db \<Rightarrow> bool" where
  "likes_unique s = distinct (map (\<lambda>l. (like_vibeId l, like_userId l)) (likes s))"

text \<open>A run of \<open>createOrUpdateLike\<close> calls, each \<open>(userId, vibeId, isLike, clock)\<close>.\<close>

fun setReactions :: "Db \<Rightarrow> (int \<times> int \<times> bool \<times> int) list \<Rightarrow> Db" where
  "setReactions s [] = s"
| "setReactions s ((userId, vibeId, b, now) # calls) =
     setReactions (snd (createOrUpdateLike s vibeId userId b now)) calls"

text \<open>The rows of the connections table for an ordered pair of users.\<close>

definition connectionsOf :: "Db \<Rightarrow> int \<Rightarrow> int \<Rightarrow> Connection list" where
  "connectionsOf s userId connectedToId' =
     filter (\<lambda>c. conn_userId c = userId \<and> connectedToId c = connectedToId') (connections s)"

definition connections_unique :: "Db \<Rightarrow> bool" where
  "connections_unique s =
     distinct (map (\<lambda>c. (conn_userId c, connectedToId c)) (connections s))"

text \<open>A notification whose sender is its recipient.\<close>

definition self_notification :: "Notification \<Rightarrow> bool" where
  "self_notification n = (fromUserId n = Some (notif_userId n))"

section \<open>Example states\<close>

definition empty_db :: Db where
  "empty_db =
     \<lparr>users = [], vibes = [], comments = [], likes = [], connections = [],
      notifications = [], messages = [], quests = [], userQuestProgress = [],
      userLevel = [], comments_seq = 1, likes_seq = 1, connections_seq = 1,
      notifications_seq = 1, messages_seq = 1\<rparr>"

definition mk_user :: "int \<Rightarrow> string \<Rightarrow> User" where
  "mk_user i name =
     \<lparr>user_id = i, username = name, password = ''5f4dcc3b.a1b2'', displayName = None,
      bio = None, avatarUrl = None, user_createdAt = 0\<rparr>"

definition mk_vibe :: "int \<Rightarrow> int \<Rightarrow> string list \<Rightarrow> int \<Rightarrow> Vibe" where
  "mk_vibe i author tags t =
     \<lparr>vibe_id = i, vibe_userId = author, vibe_content = Some ''gm'', mediaUrl = None,
      mediaType = None, hashtags = Some tags, vibe_createdAt = t\<rparr>"

definition mk_like :: "int \<Rightarrow> int \<Rightarrow> int \<Rightarrow> bool \<Rightarrow> Like" where
  "mk_like i vibeId userId b =
     \<lparr>like_id = i, like_vibeId = vibeId, like_userId = userId, isLike = b,
      like_createdAt = 30\<rparr>"

text \<open>Four users.\<close>

definition db_users :: Db where
  "db_users = empty_db\<lparr>users := [mk_user 1 ''ada'', mk_user 2 ''bob'', mk_user 3 ''cy'',
                                   mk_user 4 ''dee'']\<rparr>"

text \<open>The specification's trending example: A (3 likes, created at 10), B (3 likes, at 5),
  C (2 likes, at 20; user 3 dislikes it), all by user 4.\<close>

definition vibeA :: Vibe where "vibeA = mk_vibe 1 4 [''Web3''] 10"
definition vibeB :: Vibe where "vibeB = mk_vibe 2 4 [''nft''] 5"
definition vibeC :: Vibe where "vibeC = mk_vibe 3 4 [] 20"

definition db_trending :: Db where
  "db_trending = db_users
     \<lparr>vibes := [vibeA, vibeB, vibeC],
      likes := [mk_like 1 1 1 True, mk_like 2 1 2 True, mk_like 3 1 3 True,
                mk_like 4 2 1 True, mk_like 5 2 2 True, mk_like 6 2 3 True,
                mk_like 7 3 1 True, mk_like 8 3 2 True, mk_like 9 3 3 False],
      likes_seq := 10\<rparr>"

text \<open>A connection from user 1 to user 2 that user 2 has accepted.\<close>

definition conn12 :: Connection where
  "conn12 = \<lparr>conn_id = 1, conn_userId = 1, connectedToId = 2, status = ''accepted'',
             conn_createdAt = 40\<rparr>"

definition db_accepted :: Db where
  "db_accepted = db_users\<lparr>connections := [conn12], connections_seq := 2\<rparr>"

text \<open>The same connection while it is pending.\<close>

definition db_pending :: Db where
  "db_pending = db_users\<lparr>connections := [conn12\<lparr>status := ''pending''\<rparr>],
                         connections_seq := 2\<rparr>"

text \<open>A quest worth 50 XP; nobody has progress or a level row yet.\<close>

definition quest7 :: Quest where
  "quest7 = \<lparr>quest_id = 7, quest_title = ''First swap'', quest_description = None,
             xpReward = 50, relatedModuleId = None, quest_createdAt = 0\<rparr>"

definition db_quest :: Db where
  "db_quest = db_users\<lparr>quests := [quest7]\<rparr>"

section \<open>Properties\<close>

subsection \<open>Auxiliary facts about the storage layer\<close>

lemmas example_defs =
  empty_db_def db_users_def mk_user_def mk_vibe_def mk_like_def db_trending_def
  vibeA_def vibeB_def vibeC_def conn12_def db_accepted_def db_pending_def
  quest7_def db_quest_def

lemmas storage_defs =
  getUser_def deserializeUser_def userExists_def getVibeById_def vibeExists_def
  createComment_def getLikeByUserAndVibe_def createOrUpdateLike_def createConnection_def
  getConnectionById_def getConnectionByUsers_def updateConnectionStatus_def
  createNotification_def createMessage_def

lemma find_user_id: "find (\<lambda>u. user_id u = a) xs = Some u \<Longrightarrow> user_id u = a"
  by (induction xs) (auto split: if_splits)

lemma deserializeUser_id: "deserializeUser s (Some a) = Some u \<Longrightarrow> user_id u = a"
  unfolding deserializeUser_def getUser_def by (simp, erule find_user_id)

lemma deserializeUser_exists: "deserializeUser s (Some a) = Some u \<Longrightarrow> userExists s a"
  by (auto simp add: deserializeUser_def getUser_def userExists_def find_Some_iff)

lemma find_Some_ex: "(\<exists>x. find P xs = Some x) \<longleftrightarrow> (\<exists>x\<in>set xs. P x)"
  by (induction xs) auto

lemma distinct_map_filter_le1:
  "distinct (map f xs) \<Longrightarrow> length (filter (\<lambda>x. f x = k) xs) \<le> 1"
  by (induction xs) (auto simp add: filter_empty_conv image_iff)

lemma connectionsOf_pair:
  "connectionsOf s a b = filter (\<lambda>c. (conn_userId c, connectedToId c) = (a, b)) (connections s)"
  by (simp add: connectionsOf_def)

lemma connections_unique_le1:
  "connections_unique s \<Longrightarrow> length (connectionsOf s a b) \<le> 1"
  unfolding connections_unique_def connectionsOf_pair by (rule distinct_map_filter_le1)

lemma getConnectionByUsers_None:
  "getConnectionByUsers s a b = None \<Longrightarrow> (a, b) \<notin> set (map (\<lambda>c. (conn_userId c, connectedToId c)) (connections s))"
  by (auto simp add: getConnectionByUsers_def find_None_iff)

lemma createNotification_frame:
  "createNotification s u t f e c r now = (res, s') \<Longrightarrow>
     connections s' = connections s \<and> users s' = users s \<and> likes s' = likes s \<and> vibes s' = vibes s"
  by (auto simp add: createNotification_def Let_def split: if_splits)

lemma createConnection_cases:
  "createConnection s a b st now = (r, s1) \<Longrightarrow>
     (connections s1 = connections s \<and> (\<exists>e. r = Inl e))
     \<or> (\<exists>row. r = Inr row \<and> conn_userId row = a \<and> connectedToId row = b \<and> status row = st
            \<and> connections s1 = connections s @ [row])"
  by (auto simp add: createConnection_def Let_def split: if_splits)

lemma post_connection_connections:
  "connections (snd (post_connection s sess body now)) = connections s
   \<or> (\<exists>a b row. getConnectionByUsers s a b = None \<and> conn_userId row = a \<and> connectedToId row = b
        \<and> connections (snd (post_connection s sess body now)) = connections s @ [row])"
proof (cases "deserializeUser s sess")
  case None
  then show ?thesis by (simp add: post_connection_def)
next
  case (Some user)
  show ?thesis
  proof (cases body)
    case None
    with Some show ?thesis by (simp add: post_connection_def)
  next
    case b: (Some b)
    show ?thesis
    proof (cases "getConnectionByUsers s (user_id user) b")
      case ex: (Some c)
      with Some b show ?thesis by (simp add: post_connection_def)
    next
      case None
      obtain r s1 where cc: "createConnection s (user_id user) b ''pending'' now = (r, s1)"
        by (cases "createConnection s (user_id user) b ''pending'' now") 
      show ?thesis
      proof (cases r)
        case (Inl e)
        with cc Some b None createConnection_cases [OF cc] show ?thesis
          by (simp add: post_connection_def)
      next
        case (Inr row)
        obtain r2 s2 where cn: "createNotification s1 b ''connection_request''
             (Some (user_id user)) (Some (conn_id row)) None False now = (r2, s2)"
          by (cases "createNotification s1 b ''connection_request''
             (Some (user_id user)) (Some (conn_id row)) None False now")
        have s2: "connections s2 = connections s1" using createNotification_frame [OF cn] by simp
        have p: "connections (snd (post_connection s sess body now)) = connections s2"
          using Some b None cc Inr cn by (cases r2) (simp_all add: post_connection_def)
        from createConnection_cases [OF cc] Inr
        have "conn_userId row = user_id user \<and> connectedToId row = b
            \<and> connections s1 = connections s @ [row]" by auto
        with p s2 None show ?thesis by auto
      qed
    qed
  qed
qed

lemma post_connection_unique:
  assumes "connections_unique s"
  shows "connections_unique (snd (post_connection s sess body now))"
proof -
  from post_connection_connections [of s sess body now]
  consider "connections (snd (post_connection s sess body now)) = connections s"
    | a b row where "getConnectionByUsers s a b = None" "conn_userId row = a" "connectedToId row = b"
        "connections (snd (post_connection s sess body now)) = connections s @ [row]"
    by blast
  then show ?thesis
  proof cases
    case 1
    with assms show ?thesis by (simp add: connections_unique_def)
  next
    case 2
    from getConnectionByUsers_None [OF 2(1)] 2(2,3,4) assms
    show ?thesis by (simp add: connections_unique_def)
  qed
qed

lemma find_update_status:
  "find (\<lambda>c. conn_id c = i) xs = Some c \<Longrightarrow>
   find (\<lambda>c. conn_id c = i) (map (\<lambda>c. if conn_id c = i then c\<lparr>status := st\<rparr> else c) xs)
     = Some (c\<lparr>status := st\<rparr>)"
  by (induction xs) (auto split: if_splits)

lemma updateConnectionStatus_found:
  "getConnectionById s i = Some c \<Longrightarrow>
   fst (updateConnectionStatus s i st) = Some (c\<lparr>status := st\<rparr>)
   \<and> getConnectionById (snd (updateConnectionStatus s i st)) i = Some (c\<lparr>status := st\<rparr>)
   \<and> users (snd (updateConnectionStatus s i st)) = users s"
  using find_update_status [of i "connections s" c st]
  by (simp add: updateConnectionStatus_def getConnectionById_def Let_def)

lemma createNotification_ok:
  "userExists s u \<Longrightarrow> userExists s f \<Longrightarrow>
   \<exists>n s'. createNotification s u t (Some f) e c r now = (Inr n, s')
      \<and> connections s' = connections s \<and> users s' = users s \<and> likes s' = likes s
      \<and> notifications s' = notifications s @ [n]
      \<and> notif_userId n = u \<and> fromUserId n = Some f"
  by (simp add: createNotification_def Let_def)

lemma getConnectionById_cong:
  "connections s' = connections s \<Longrightarrow> getConnectionById s' i = getConnectionById s i"
  by (simp add: getConnectionById_def)


subsection \<open>Connection requests\<close>




text \<open>
  C7. When a Connection for the ordered pair (a, b) exists, whatever its status, a
  request of a to connect to b is refused (400, ``Connection already exists''), the
  database is unchanged, and exactly one row exists for the pair; the handler keeps
  ``at most one row per ordered pair'' on every call.
\<close>

theorem post_connection_duplicate:
  assumes "connections_unique s"
    and "deserializeUser s (Some a) = Some user"
    and "connectionsOf s a b \<noteq> []"
  shows "post_connection s (Some a) (Some b) now = (Message 400 ''Connection already exists'', s)
         \<and> length (connectionsOf (snd (post_connection s (Some a) (Some b) now)) a b) = 1
         \<and> connections_unique (snd (post_connection s sess' body' now'))"
proof -
  have ida: "user_id user = a" using assms(2) by (rule deserializeUser_id)
  have "\<exists>c\<in>set (connections s). conn_userId c = a \<and> connectedToId c = b"
    using assms(3) by (auto simp add: connectionsOf_def filter_empty_conv)
  then obtain c where c: "getConnectionByUsers s a b = Some c"
    unfolding getConnectionByUsers_def using find_Some_ex [of "\<lambda>c. conn_userId c = a \<and> connectedToId c = b" "connections s"]
    by blast
  have r: "post_connection s (Some a) (Some b) now = (Message 400 ''Connection already exists'', s)"
    using assms(2) ida c by (simp add: post_connection_def)
  have "length (connectionsOf s a b) \<le> 1" using assms(1) by (rule connections_unique_le1)
  moreover have "length (connectionsOf s a b) \<noteq> 0" using assms(3) by simp
  ultimately have "length (connectionsOf s a b) = 1" by linarith
  with r post_connection_unique [OF assms(1)] show ?thesis by simp
qed

theorem post_connection_duplicate_witness:
  "connections_unique db_accepted
   \<and> deserializeUser db_accepted (Some 1) = Some (mk_user 1 ''ada'')
   \<and> connectionsOf db_accepted 1 2 = [conn12]
   \<and> post_connection db_accepted (Some 1) (Some 2) 60
       = (Message 400 ''Connection already exists'', db_accepted)
   \<and> connections_unique (snd (post_connection db_accepted (Some 2) (Some 1) 61))"
proof -
  have h1: "connections_unique db_accepted"
    by (simp add: connections_unique_def example_defs)
  have h2: "deserializeUser db_accepted (Some 1) = Some (mk_user 1 ''ada'')"
    by (simp add: storage_defs example_defs)
  have h3: "connectionsOf db_accepted 1 2 = [conn12]"
    by (simp add: connectionsOf_def example_defs)
  have h3': "connectionsOf db_accepted 1 2 \<noteq> []" using h3 by simp
  from post_connection_duplicate [OF h1 h2 h3', of 60 "Some 2" "Some 1" 61] h1 h2 h3
  show ?thesis by simp
qed

subsection \<open>Responding to a connection request\<close>

text \<open>
  C8. For a pending connection and an authenticated caller who is not its recipient,
  answering it (accepted or rejected) is refused with 403, the database is unchanged, and
  the status is still pending.
\<close>

theorem put_connection_forbidden:
  assumes "getConnectionById s i = Some c"
    and "status c = ''pending''"
    and "deserializeUser s (Some r) = Some user"
    and "r \<noteq> connectedToId c"
    and "decision \<in> {''accepted'', ''rejected''}"
  shows "put_connection s (Some r) i decision now
           = (Message 403 ''Not authorized to update this connection'', s)
         \<and> map_option status
              (getConnectionById (snd (put_connection s (Some r) i decision now)) i)
             = Some ''pending''"
proof -
  have ida: "user_id user = r" using assms(3) by (rule deserializeUser_id)
  have d: "decision \<in> set [''accepted'', ''rejected'']" using assms(5) by simp
  have eq: "put_connection s (Some r) i decision now
           = (Message 403 ''Not authorized to update this connection'', s)"
    unfolding put_connection_def
    by (simp only: assms(1,3) d ida option.case if_False if_True assms(4)[symmetric] simp_thms)
  show ?thesis unfolding eq using assms(1,2) by simp
qed

theorem put_connection_forbidden_witness:
  "getConnectionById db_pending 1 = Some (conn12\<lparr>status := ''pending''\<rparr>)
   \<and> deserializeUser db_pending (Some 1) = Some (mk_user 1 ''ada'')
   \<and> put_connection db_pending (Some 1) 1 ''accepted'' 60
       = (Message 403 ''Not authorized to update this connection'', db_pending)"
proof -
  have h1: "getConnectionById db_pending 1 = Some (conn12\<lparr>status := ''pending''\<rparr>)"
    by (simp add: storage_defs example_defs)
  have h2: "status (conn12\<lparr>status := ''pending''\<rparr>) = ''pending''" by simp
  have h3: "deserializeUser db_pending (Some 1) = Some (mk_user 1 ''ada'')"
    by (simp add: storage_defs example_defs)
  have h4: "(1::int) \<noteq> connectedToId (conn12\<lparr>status := ''pending''\<rparr>)"
    by (simp add: example_defs)
  have h5: "''accepted'' \<in> {''accepted'', ''rejected''}" by simp
  from put_connection_forbidden [OF h1 h2 h3 h4 h5, of 60] h1 h3 show ?thesis by simp
qed

text \<open>
  C5, as the specification states it: answering a connection that is no longer pending
  fails with a ConflictError and leaves the stored status alone.  The handler never reads
  the status: the recipient (user 2) rejecting a connection already accepted gets 200,
  and the stored status is now rejected.
\<close>

theorem put_connection_terminal_counterexample:
  "status conn12 = ''accepted''
   \<and> getConnectionById db_accepted 1 = Some conn12
   \<and> fst (put_connection db_accepted (Some 2) 1 ''rejected'' 60)
       = Json 200 (Some (conn12\<lparr>status := ''rejected''\<rparr>))
   \<and> map status (connections (snd (put_connection db_accepted (Some 2) 1 ''rejected'' 60)))
       = [''rejected'']"
  by (simp add: put_connection_def storage_defs example_defs Let_def)

text \<open>
  C5, amended: for every connection, pending or not, whose requester still exists, the
  answer (accepted or rejected) of its recipient succeeds with 200 and overwrites the
  stored status with the answer; accepted and rejected are not terminal.
\<close>

theorem put_connection_overwrites_status:
  assumes "getConnectionById s i = Some c"
    and "deserializeUser s (Some (connectedToId c)) = Some user"
    and "userExists s (conn_userId c)"
    and "decision \<in> {''accepted'', ''rejected''}"
  shows "fst (put_connection s (Some (connectedToId c)) i decision now)
           = Json 200 (Some (c\<lparr>status := decision\<rparr>))
         \<and> getConnectionById (snd (put_connection s (Some (connectedToId c)) i decision now)) i
           = Some (c\<lparr>status := decision\<rparr>)"
proof -
  have ida: "user_id user = connectedToId c" using assms(2) by (rule deserializeUser_id)
  have d: "decision \<in> set [''accepted'', ''rejected'']" using assms(4) by simp
  obtain upd s1 where u: "updateConnectionStatus s i decision = (upd, s1)"
    by (cases "updateConnectionStatus s i decision")
  from updateConnectionStatus_found [OF assms(1), of decision] u
  have upd: "upd = Some (c\<lparr>status := decision\<rparr>)"
    and g1: "getConnectionById s1 i = Some (c\<lparr>status := decision\<rparr>)"
    and us1: "users s1 = users s" by simp_all
  have step: "put_connection s (Some (connectedToId c)) i decision now =
      (if decision = ''accepted'' then
          (case createNotification s1 (conn_userId c) ''connection_accepted''
                  (Some (connectedToId c)) (Some (conn_id c)) None False now of
             (Inl e, s2) \<Rightarrow> (NextError e, s2)
           | (Inr n, s2) \<Rightarrow> (Json 200 upd, s2))
       else (Json 200 upd, s1))"
    unfolding put_connection_def
    by (simp only: assms(1,2) d ida u option.case if_False if_True prod.case simp_thms)
  show ?thesis
  proof (cases "decision = ''accepted''")
    case False
    with step upd g1 show ?thesis by simp
  next
    case True
    have "userExists s1 (conn_userId c)" "userExists s1 (connectedToId c)"
      using assms(3) deserializeUser_exists [OF assms(2)] us1 by (simp_all add: userExists_def)
    from createNotification_ok [OF this]
    obtain n s2 where cn: "createNotification s1 (conn_userId c) ''connection_accepted''
                  (Some (connectedToId c)) (Some (conn_id c)) None False now = (Inr n, s2)"
      and c2: "connections s2 = connections s1" by blast
    have "put_connection s (Some (connectedToId c)) i decision now = (Json 200 upd, s2)"
      using step True cn by simp
    with upd g1 getConnectionById_cong [OF c2] show ?thesis by simp
  qed
qed

theorem put_connection_overwrites_status_witness:
  "getConnectionById db_accepted 1 = Some conn12
   \<and> deserializeUser db_accepted (Some 2) = Some (mk_user 2 ''bob'')
   \<and> userExists db_accepted 1
   \<and> fst (put_connection db_accepted (Some 2) 1 ''accepted'' 60) = Json 200 (Some conn12)"
proof -
  have h1: "getConnectionById db_accepted 1 = Some conn12"
    by (simp add: storage_defs example_defs)
  have h2: "deserializeUser db_accepted (Some (connectedToId conn12)) = Some (mk_user 2 ''bob'')"
    by (simp add: storage_defs example_defs)
  have h3: "userExists db_accepted (conn_userId conn12)"
    by (simp add: storage_defs example_defs)
  have h4: "''accepted'' \<in> {''accepted'', ''rejected''}" by simp
  have c: "connectedToId conn12 = 2" "conn_userId conn12 = 1"
    "conn12\<lparr>status := ''accepted''\<rparr> = conn12" by (simp_all add: example_defs)
  from put_connection_overwrites_status [OF h1 h2 h3 h4, of 60] h1 h2 h3 show ?thesis
    by (simp add: c)
qed

subsection \<open>Reactions\<close>

lemma like_key_update:
  "map (\<lambda>l. (like_vibeId l, like_userId l)) (map (\<lambda>l. if like_id l = i then l\<lparr>isLike := b\<rparr> else l) xs)
     = map (\<lambda>l. (like_vibeId l, like_userId l)) xs"
  by (induction xs) auto

lemma getLike_None_key:
  "getLikeByUserAndVibe s u c = None \<Longrightarrow>
     (c, u) \<notin> set (map (\<lambda>l. (like_vibeId l, like_userId l)) (likes s))"
  by (auto simp add: getLikeByUserAndVibe_def find_None_iff)

lemma createOrUpdateLike_frame:
  "users (snd (createOrUpdateLike s c u b now)) = users s
   \<and> vibes (snd (createOrUpdateLike s c u b now)) = vibes s
   \<and> notifications (snd (createOrUpdateLike s c u b now)) = notifications s"
  by (simp add: createOrUpdateLike_def Let_def split: option.split)

lemma createOrUpdateLike_unique:
  assumes "likes_unique s"
  shows "likes_unique (snd (createOrUpdateLike s c u b now))"
proof (cases "getLikeByUserAndVibe s u c")
  case None
  from getLike_None_key [OF None] assms show ?thesis
    by (simp add: createOrUpdateLike_def None Let_def likes_unique_def)
next
  case (Some ex)
  with assms show ?thesis
    by (simp add: createOrUpdateLike_def Let_def likes_unique_def like_key_update del: map_map)
qed

lemma setReactions_unique:
  "likes_unique s \<Longrightarrow> likes_unique (setReactions s calls)"
proof (induction calls arbitrary: s)
  case Nil
  then show ?case by simp
next
  case (Cons call calls)
  obtain u c b t where call: "call = (u, c, b, t)" by (cases call)
  from Cons.prems have "likes_unique (snd (createOrUpdateLike s c u b t))"
    by (rule createOrUpdateLike_unique)
  then show ?case unfolding call by (simp add: Cons.IH)
qed

lemma setReactions_frame:
  "users (setReactions s calls) = users s \<and> vibes (setReactions s calls) = vibes s"
proof (induction calls arbitrary: s)
  case Nil
  then show ?case by simp
next
  case (Cons call calls)
  obtain u c b t where call: "call = (u, c, b, t)" by (cases call)
  show ?case unfolding call by (simp add: Cons.IH createOrUpdateLike_frame)
qed

lemma setReactions_append:
  "setReactions s (xs @ ys) = setReactions (setReactions s xs) ys"
  by (induction xs arbitrary: s) auto

lemma reactionsOf_pair:
  "reactionsOf s c u = filter (\<lambda>l. (like_vibeId l, like_userId l) = (c, u)) (likes s)"
  by (simp add: reactionsOf_def)

lemma likes_unique_le1: "likes_unique s \<Longrightarrow> length (reactionsOf s c u) \<le> 1"
  unfolding likes_unique_def reactionsOf_pair by (rule distinct_map_filter_le1)

lemma filter_update_isLike:
  "filter (\<lambda>l. like_vibeId l = c \<and> like_userId l = u)
      (map (\<lambda>l. if like_id l = i then l\<lparr>isLike := b\<rparr> else l) xs)
   = map (\<lambda>l. if like_id l = i then l\<lparr>isLike := b\<rparr> else l)
      (filter (\<lambda>l. like_vibeId l = c \<and> like_userId l = u) xs)"
  by (induction xs) auto

lemma find_in_filter:
  "find P xs = Some x \<Longrightarrow> x \<in> set (filter P xs)"
  by (induction xs) (auto split: if_splits)

lemma reactionsOf_existing:
  assumes "likes_unique s" and "getLikeByUserAndVibe s u c = Some ex"
  shows "reactionsOf s c u = [ex]"
proof -
  have "ex \<in> set (reactionsOf s c u)"
    using assms(2) find_in_filter [of "\<lambda>l. like_userId l = u \<and> like_vibeId l = c" "likes s" ex]
    by (simp add: getLikeByUserAndVibe_def reactionsOf_def conj_commute)
  moreover have "length (reactionsOf s c u) \<le> 1" using assms(1) by (rule likes_unique_le1)
  ultimately show ?thesis by (cases "reactionsOf s c u") auto
qed

lemma createOrUpdateLike_row:
  assumes "likes_unique s"
    and "userExists s u" and "vibeExists s c"
  shows "\<exists>l. reactionsOf (snd (createOrUpdateLike s c u b now)) c u = [l] \<and> isLike l = b"
proof (cases "getLikeByUserAndVibe s u c")
  case None
  then have "reactionsOf s c u = []"
    by (auto simp add: getLikeByUserAndVibe_def reactionsOf_def find_None_iff filter_empty_conv)
  with None assms(2,3) show ?thesis
    by (simp add: createOrUpdateLike_def Let_def reactionsOf_def)
next
  case (Some ex)
  from reactionsOf_existing [OF assms(1) Some]
  have "filter (\<lambda>l. like_vibeId l = c \<and> like_userId l = u) (likes s) = [ex]"
    by (simp add: reactionsOf_def)
  with Some show ?thesis
    by (simp add: createOrUpdateLike_def Let_def reactionsOf_def filter_update_isLike)
qed

text \<open>The like handler changes the likes table through \<open>createOrUpdateLike\<close> alone, so
  it keeps the invariant too.\<close>

lemma post_like_unique:
  assumes "likes_unique s"
  shows "likes_unique (snd (post_like s sess v b now))"
proof (cases "deserializeUser s sess")
  case None
  with assms show ?thesis by (simp add: post_like_def)
next
  case (Some user)
  show ?thesis
  proof (cases b)
    case None
    with Some assms show ?thesis by (simp add: post_like_def)
  next
    case b: (Some isLike')
    obtain r s1 where c: "createOrUpdateLike s v (user_id user) isLike' now = (r, s1)"
      by (cases "createOrUpdateLike s v (user_id user) isLike' now")
    have u1: "likes_unique s1"
      using createOrUpdateLike_unique [OF assms, of v "user_id user" isLike' now] c by simp
    have "likes (snd (post_like s sess v b now)) = likes s1"
      using Some b c
      by (auto simp add: post_like_def split: sum.splits option.splits prod.splits
            dest: createNotification_frame)
    with u1 show ?thesis by (simp add: likes_unique_def)
  qed
qed

text \<open>
  C4. From a likes table with at most one row per (vibe, user), every run of
  \<open>createOrUpdateLike\<close> calls leaves at most one row for every pair; and for an existing user
  u and vibe c, a run that ends with the calls (u, c, true), (u, c, false), (u, c, true)
  leaves exactly one row for (c, u), whose \<open>isLike\<close> is true.
\<close>

theorem setReaction_single_row:
  assumes "likes_unique s" and "userExists s u" and "vibeExists s c"
  shows "length (reactionsOf (setReactions s calls) c' u') \<le> 1
         \<and> (\<exists>l. reactionsOf (setReactions s
                   (calls @ [(u, c, True, t1), (u, c, False, t2), (u, c, True, t3)])) c u = [l]
                \<and> isLike l)"
proof -
  let ?s2 = "setReactions s (calls @ [(u, c, True, t1), (u, c, False, t2)])"
  have u2: "likes_unique ?s2" using assms(1) by (rule setReactions_unique)
  have e2: "userExists ?s2 u" "vibeExists ?s2 c"
    using assms(2,3) setReactions_frame [of s "calls @ [(u, c, True, t1), (u, c, False, t2)]"]
    by (simp_all add: userExists_def vibeExists_def)
  have split: "setReactions s (calls @ [(u, c, True, t1), (u, c, False, t2), (u, c, True, t3)])
      = snd (createOrUpdateLike ?s2 c u True t3)"
    using setReactions_append [of s "calls @ [(u, c, True, t1), (u, c, False, t2)]" "[(u, c, True, t3)]"]
    by simp
  from createOrUpdateLike_row [OF u2 e2, of True t3]
  have "\<exists>l. reactionsOf (snd (createOrUpdateLike ?s2 c u True t3)) c u = [l] \<and> isLike l"
    by simp
  moreover have "length (reactionsOf (setReactions s calls) c' u') \<le> 1"
    using setReactions_unique [OF assms(1)] by (rule likes_unique_le1)
  ultimately show ?thesis unfolding split by simp
qed

theorem setReaction_single_row_witness:
  "likes_unique db_trending \<and> userExists db_trending 4 \<and> vibeExists db_trending 3
   \<and> map isLike (reactionsOf (setReactions db_trending
         [(4, 3, True, 31), (4, 3, False, 32), (4, 3, True, 33)]) 3 4) = [True]"
proof -
  have h1: "likes_unique db_trending" by (simp add: likes_unique_def example_defs)
  have h2: "userExists db_trending 4" by (simp add: userExists_def example_defs)
  have h3: "vibeExists db_trending 3" by (simp add: vibeExists_def example_defs)
  from setReaction_single_row [OF h1 h2 h3, of "[]" 3 4 31 32 33] h1 h2 h3
  show ?thesis by auto
qed

subsection \<open>Hashtag search and trending\<close>

lemma sorted_desc_sort_key:
  "sorted_wrt (\<lambda>a b. f b \<le> f a) (sort_key (\<lambda>v. - f v) xs)" for f :: "'a \<Rightarrow> int"
proof -
  have "sorted (map (\<lambda>v. - f v) (sort_key (\<lambda>v. - f v) xs))" by (rule sorted_sort_key)
  then show ?thesis by (simp add: sorted_map)
qed

text \<open>
  C9, as the specification states it: the search by tag compares case-insensitively, so
  a tag that differs from the query only in letter case matches.  The array containment
  of the query compares the strings as they are: vibe A carries the tag ``Web3'', the
  specification's reading finds it for ``web3'', the code finds nothing.
\<close>

theorem getVibesByHashtag_case_sensitive_counterexample:
  "hashtags vibeA = Some [''Web3'']
   \<and> lower ''Web3'' = lower ''web3''
   \<and> queryByTag_spec db_trending ''web3'' = [vibeA]
   \<and> getVibesByHashtag db_trending ''web3'' = []"
  by (simp add: getVibesByHashtag_def queryByTag_spec_def lower_def lower_char_def example_defs)

text \<open>
  C9, amended: \<open>getVibesByHashtag t\<close> returns exactly the vibes whose (non-null) tag array
  has an element equal to t, character for character (case-sensitive), each once,
  ordered by \<open>createdAt\<close> descending.
\<close>

theorem getVibesByHashtag_exact:
  "set (getVibesByHashtag s t)
     = {v \<in> set (vibes s). \<exists>tags. hashtags v = Some tags \<and> t \<in> set tags}
   \<and> length (getVibesByHashtag s t)
     = length (filter (\<lambda>v. \<exists>tags. hashtags v = Some tags \<and> t \<in> set tags) (vibes s))
   \<and> sorted_wrt (\<lambda>a b. vibe_createdAt b \<le> vibe_createdAt a) (getVibesByHashtag s t)"
proof -
  have p: "(\<lambda>v. case hashtags v of None \<Rightarrow> False | Some tags \<Rightarrow> t \<in> set tags)
         = (\<lambda>v. \<exists>tags. hashtags v = Some tags \<and> t \<in> set tags)"
    by (rule ext) (simp split: option.split)
  show ?thesis
    unfolding getVibesByHashtag_def p
    by (simp add: sorted_desc_sort_key) 
qed

text \<open>
  C2, as the specification states it: the trending list is ordered by the count of likes
  descending, ties by \<open>createdAt\<close> descending, so that A (3 likes, created at 10),
  B (3 likes, at 5), C (2 likes, at 20) come back as [A, B, C].  The second query of
  \<open>getTrendingVibes\<close> orders the selected vibes by \<open>createdAt\<close> alone: the result is
  [C, A, B].
\<close>

theorem getTrendingVibes_counterexample:
  "map (likes_count db_trending \<circ> vibe_id) [vibeA, vibeB, vibeC] = [3, 3, 2]
   \<and> map vibe_createdAt [vibeA, vibeB, vibeC] = [10, 5, 20]
   \<and> getTrendingVibes db_trending 3 = [vibeC, vibeA, vibeB]
   \<and> getTrendingVibes db_trending 3 \<noteq> [vibeA, vibeB, vibeC]"
  by (simp add: getTrendingVibes_def likes_count_def example_defs)

lemma getTrendingVibes_alt:
  "getTrendingVibes s n =
     sort_key (\<lambda>v. - vibe_createdAt v)
       (filter (\<lambda>v. vibe_id v \<in> set (map fst (take n
            (sort_key (\<lambda>r. - int (snd r))
               (map (\<lambda>v. (vibe_id v, likes_count s (vibe_id v))) (vibes s)))))) (vibes s))"
  by (simp add: getTrendingVibes_def Let_def)

lemma length_filter_ids:
  assumes "distinct (map f xs)" and "distinct ids" and "set ids \<subseteq> f ` set xs"
  shows "length (filter (\<lambda>x. f x \<in> set ids) xs) = length ids"
proof -
  have dx: "distinct xs" and inj: "inj_on f (set xs)"
    using assms(1) by (simp_all add: distinct_map)
  have "length (filter (\<lambda>x. f x \<in> set ids) xs) = card ({x. f x \<in> set ids} \<inter> set xs)"
    using dx by (rule distinct_length_filter)
  also have "\<dots> = card (f ` ({x. f x \<in> set ids} \<inter> set xs))"
    by (rule card_image [symmetric]) (rule inj_on_subset [OF inj], blast)
  also have "f ` ({x. f x \<in> set ids} \<inter> set xs) = set ids"
    using assms(3) by auto
  also have "card (set ids) = length ids" using assms(2) by (rule distinct_card)
  finally show ?thesis .
qed

lemma trending_rows:
  fixes s n
  defines "ps \<equiv> map (\<lambda>v. (vibe_id v, likes_count s (vibe_id v))) (vibes s)"
  defines "sp \<equiv> sort_key (\<lambda>r. - int (snd r)) ps"
  assumes d: "distinct (map vibe_id (vibes s))"
  shows "distinct (map fst (take n sp))"
    and "set (map fst (take n sp)) \<subseteq> vibe_id ` set (vibes s)"
    and "length (take n sp) = min n (length (vibes s))"
    and "\<And>p. p \<in> set sp \<Longrightarrow> snd p = likes_count s (fst p)"
    and "\<And>v. v \<in> set (vibes s) \<Longrightarrow> (vibe_id v, likes_count s (vibe_id v)) \<in> set sp"
    and "\<And>p q. p \<in> set (take n sp) \<Longrightarrow> q \<in> set (drop n sp) \<Longrightarrow> snd q \<le> snd p"
proof -
  have fst_ps: "map fst ps = map vibe_id (vibes s)" by (simp add: ps_def comp_def)
  have dps: "distinct (map fst ps)" using d by (simp add: fst_ps)
  then have "distinct ps" and "inj_on fst (set ps)" by (simp_all add: distinct_map)
  then have "distinct (map fst sp)" by (simp add: distinct_map sp_def)
  then have "distinct (take n (map fst sp))" by (rule distinct_take)
  then show "distinct (map fst (take n sp))" by (simp add: take_map)
  have "set (take n sp) \<subseteq> set ps" using set_take_subset [of n sp] by (simp add: sp_def)
  then have "fst ` set (take n sp) \<subseteq> fst ` set ps" by blast
  also have "fst ` set ps = vibe_id ` set (vibes s)"
    using fst_ps by (metis list.set_map)
  finally show "set (map fst (take n sp)) \<subseteq> vibe_id ` set (vibes s)" by simp
  show "length (take n sp) = min n (length (vibes s))"
    by (simp add: sp_def ps_def min.commute)
  show "\<And>p. p \<in> set sp \<Longrightarrow> snd p = likes_count s (fst p)"
    by (auto simp add: sp_def ps_def)
  show "\<And>v. v \<in> set (vibes s) \<Longrightarrow> (vibe_id v, likes_count s (vibe_id v)) \<in> set sp"
    by (auto simp add: sp_def ps_def)
  have "sorted (map (\<lambda>r. - int (snd r)) sp)" unfolding sp_def by (rule sorted_sort_key)
  then have "sorted (map (\<lambda>r. - int (snd r)) (take n sp) @ map (\<lambda>r. - int (snd r)) (drop n sp))"
    by (simp flip: map_append)
  then have "\<forall>x\<in>set (map (\<lambda>r. - int (snd r)) (take n sp)).
             \<forall>y\<in>set (map (\<lambda>r. - int (snd r)) (drop n sp)). x \<le> y"
    unfolding sorted_append by (elim conjE)
  then show "\<And>p q. p \<in> set (take n sp) \<Longrightarrow> q \<in> set (drop n sp) \<Longrightarrow> snd q \<le> snd p"
    by fastforce
qed

text \<open>
  C2, amended: \<open>getTrendingVibes n\<close> selects n different vibes with the highest counts of
  likes (all of them when there are fewer than n; no vibe left out has more likes than
  one returned) and returns the selection ordered by \<open>createdAt\<close> descending, whatever
  the counts.
\<close>

theorem getTrendingVibes_newest_first_of_top:
  assumes "distinct (map vibe_id (vibes s))"
  shows "sorted_wrt (\<lambda>a b. vibe_createdAt b \<le> vibe_createdAt a) (getTrendingVibes s n)
         \<and> length (getTrendingVibes s n) = min n (length (vibes s))
         \<and> distinct (getTrendingVibes s n)
         \<and> set (getTrendingVibes s n) \<subseteq> set (vibes s)
         \<and> (\<forall>v \<in> set (getTrendingVibes s n).
              \<forall>w \<in> set (vibes s) - set (getTrendingVibes s n).
                likes_count s (vibe_id w) \<le> likes_count s (vibe_id v))"
proof -
  define sp where "sp = sort_key (\<lambda>r. - int (snd r))
               (map (\<lambda>v. (vibe_id v, likes_count s (vibe_id v))) (vibes s))"
  note rows1 = trending_rows(1-3) [OF assms, where n = n, folded sp_def]
  note rows4 = trending_rows(4) [OF assms, folded sp_def]
  note rows5 = trending_rows(5) [OF assms, folded sp_def]
  note rows6 = trending_rows(6) [OF assms, where n = n, folded sp_def]
  have alt: "getTrendingVibes s n = sort_key (\<lambda>v. - vibe_createdAt v)
       (filter (\<lambda>v. vibe_id v \<in> set (map fst (take n sp))) (vibes s))"
    unfolding sp_def by (rule getTrendingVibes_alt)
  have sorted: "sorted_wrt (\<lambda>a b. vibe_createdAt b \<le> vibe_createdAt a) (getTrendingVibes s n)"
    unfolding alt by (rule sorted_desc_sort_key)
  have len: "length (getTrendingVibes s n) = min n (length (vibes s))"
    using length_filter_ids [OF assms rows1(1) rows1(2)] rows1(3) by (simp add: alt)
  have "distinct (vibes s)" using assms by (simp add: distinct_map)
  then have dis: "distinct (getTrendingVibes s n)" by (simp add: alt)
  have sub: "set (getTrendingVibes s n) \<subseteq> set (vibes s)" by (auto simp add: alt)
  have top: "likes_count s (vibe_id w) \<le> likes_count s (vibe_id v)"
    if v: "v \<in> set (getTrendingVibes s n)"
      and w: "w \<in> set (vibes s) - set (getTrendingVibes s n)" for v w
  proof -
    from v obtain p where p: "p \<in> set (take n sp)" "fst p = vibe_id v"
      by (auto simp add: alt)
    from p(1) have "p \<in> set sp" by (rule in_set_takeD)
    with rows4 p(2) have sp: "snd p = likes_count s (vibe_id v)" by simp
    let ?q = "(vibe_id w, likes_count s (vibe_id w))"
    from w have win: "w \<in> set (vibes s)" and "vibe_id w \<notin> set (map fst (take n sp))"
      by (auto simp add: alt)
    then have "?q \<notin> set (take n sp)" by force
    moreover have "?q \<in> set sp" using win by (rule rows5)
    moreover have "set sp = set (take n sp) \<union> set (drop n sp)"
      by (metis append_take_drop_id set_append)
    ultimately have "?q \<in> set (drop n sp)" by blast
    from rows6 [OF p(1) this] sp show ?thesis by simp
  qed
  from sorted len dis sub top show ?thesis by blast
qed

theorem getTrendingVibes_newest_first_of_top_witness:
  "distinct (map vibe_id (vibes db_trending))
   \<and> getTrendingVibes db_trending 2 = [vibeA, vibeB]
   \<and> likes_count db_trending (vibe_id vibeC) \<le> likes_count db_trending (vibe_id vibeB)"
proof -
  have h: "distinct (map vibe_id (vibes db_trending))" by (simp add: example_defs)
  have r: "getTrendingVibes db_trending 2 = [vibeA, vibeB]"
    by (simp add: getTrendingVibes_def likes_count_def example_defs)
  have c: "vibeC \<in> set (vibes db_trending) - set (getTrendingVibes db_trending 2)"
    unfolding r by (simp add: example_defs)
  from getTrendingVibes_newest_first_of_top [OF h, of 2] r c h show ?thesis by auto
qed

subsection \<open>Quest completion\<close>

text \<open>With the storage object that the server runs on, every call of an authenticated
  user ends in the \<open>TypeError\<close> of the first storage call and changes nothing.\<close>

lemma complete_quest_DatabaseStorage:
  assumes "deserializeUser s sess = Some user"
  shows "complete_quest DatabaseStorage s sess questId now
           = (NextError (TypeError ''storage.completeUserQuest is not a function''), s)"
  using assms
  by (simp add: complete_quest_def call_completeUserQuest_def DatabaseStorage_def)

text \<open>With any storage object that has the three methods, the reward is added after every
  completion that returns, for a new record and for an existing one alike: nothing in the
  handler looks at the record before it calls \<open>addUserXp\<close>.\<close>

lemma complete_quest_adds_after_every_completion:
  assumes "deserializeUser s sess = Some user"
    and "call_completeUserQuest storage s (user_id user) questId now = (Inr progress, s1)"
    and "call_getQuestById storage s1 questId = (Inr (Some quest), s2)"
    and "xpReward quest \<noteq> 0"
  shows "snd (complete_quest storage s sess questId now)
           = snd (call_addUserXp storage s2 (user_id user) (xpReward quest) now)"
proof -
  obtain r s3 where a: "call_addUserXp storage s2 (user_id user) (xpReward quest) now = (r, s3)"
    by (cases "call_addUserXp storage s2 (user_id user) (xpReward quest) now")
  show ?thesis
    unfolding complete_quest_def using assms a by (cases r) simp_all
qed

text \<open>
  C1. Completing a quest twice awards its \<open>xpReward\<close> once, and the second call returns
  the existing record unchanged.  On the server as it is, user 1 completing quest 7
  (50 XP) twice gets the \<open>TypeError\<close> of \<open>storage.completeUserQuest\<close> both times: no
  progress record is stored and no XP is granted, not even once.
\<close>

theorem complete_quest_twice_not_implemented:
  "deserializeUser db_quest (Some 1) = Some (mk_user 1 ''ada'')
   \<and> quests db_quest = [quest7] \<and> quest_id quest7 = 7 \<and> xpReward quest7 = 50
   \<and> complete_quest_twice DatabaseStorage db_quest (Some 1) 7 100 200
       = ((NextError (TypeError ''storage.completeUserQuest is not a function''), db_quest),
          (NextError (TypeError ''storage.completeUserQuest is not a function''), db_quest))
   \<and> userQuestProgress db_quest = [] \<and> userLevel db_quest = []"
  by (simp add: complete_quest_twice_def complete_quest_def call_completeUserQuest_def
        DatabaseStorage_def storage_defs example_defs Let_def)

subsection \<open>Notifications\<close>

text \<open>The comment and the like handlers notify the owner of the vibe only when the owner
  is not the caller (``if not the same as commenter''): neither ever stores a notification
  whose sender is its recipient.\<close>

lemma createNotification_appends:
  "createNotification s u t f e c r now = (res, s') \<Longrightarrow>
     notifications s' = notifications s
     \<or> (\<exists>n. notifications s' = notifications s @ [n] \<and> notif_userId n = u \<and> fromUserId n = f)"
  by (auto simp add: createNotification_def Let_def split: if_splits)

lemma createComment_frame:
  "createComment s v u c now = (res, s') \<Longrightarrow>
     notifications s' = notifications s \<and> vibes s' = vibes s"
  by (auto simp add: createComment_def Let_def split: if_splits)

lemma createOrUpdateLike_frame_eq:
  "createOrUpdateLike s c u b now = (res, s') \<Longrightarrow> notifications s' = notifications s"
  using createOrUpdateLike_frame [of s c u b now] by simp

lemma no_self_append:
  assumes "list_all (\<lambda>n. \<not> self_notification n) (notifications s)"
    and "notifications s' = notifications s
         \<or> (\<exists>n. notifications s' = notifications s @ [n] \<and> notif_userId n = u \<and> fromUserId n = Some f)"
    and "u \<noteq> f"
  shows "list_all (\<lambda>n. \<not> self_notification n) (notifications s')"
  using assms by (auto simp add: self_notification_def)

lemma post_like_no_self_notification:
  assumes "list_all (\<lambda>n. \<not> self_notification n) (notifications s)"
  shows "list_all (\<lambda>n. \<not> self_notification n) (notifications (snd (post_like s sess v b now)))"
proof (cases "deserializeUser s sess")
  case None
  with assms show ?thesis by (simp add: post_like_def)
next
  case (Some user)
  show ?thesis
  proof (cases b)
    case None
    with Some assms show ?thesis by (simp add: post_like_def)
  next
    case b: (Some isLike')
    obtain r s1 where c: "createOrUpdateLike s v (user_id user) isLike' now = (r, s1)"
      by (cases "createOrUpdateLike s v (user_id user) isLike' now")
    have n1: "list_all (\<lambda>n. \<not> self_notification n) (notifications s1)"
      using createOrUpdateLike_frame_eq [OF c] assms by simp
    show ?thesis
    proof (cases r)
      case (Inl e)
      with Some b c n1 show ?thesis by (simp add: post_like_def)
    next
      case (Inr like)
      show ?thesis
      proof (cases "getVibeById s1 v")
        case None
        with Some b c Inr n1 show ?thesis by (simp add: post_like_def)
      next
        case vibe: (Some vibe)
        show ?thesis
        proof (cases "vibe_userId vibe \<noteq> user_id user \<and> isLike'")
          case False
          with Some b c Inr vibe n1 show ?thesis by (auto simp add: post_like_def)
        next
          case True
          obtain r2 s2 where cn: "createNotification s1 (vibe_userId vibe) ''like''
               (Some (user_id user)) (Some v) None False now = (r2, s2)"
            by (cases "createNotification s1 (vibe_userId vibe) ''like''
               (Some (user_id user)) (Some v) None False now")
          have n2: "list_all (\<lambda>n. \<not> self_notification n) (notifications s2)"
          proof -
            from True have "vibe_userId vibe \<noteq> user_id user" by simp
            with n1 createNotification_appends [OF cn] show ?thesis by (rule no_self_append)
          qed
          have "snd (post_like s sess v b now) = s2"
            using Some b c Inr vibe True cn by (cases r2) (simp_all add: post_like_def)
          with n2 show ?thesis by simp
        qed
      qed
    qed
  qed
qed

lemma post_comment_no_self_notification:
  assumes "list_all (\<lambda>n. \<not> self_notification n) (notifications s)"
  shows "list_all (\<lambda>n. \<not> self_notification n) (notifications (snd (post_comment s sess v b now)))"
proof (cases "deserializeUser s sess")
  case None
  with assms show ?thesis by (simp add: post_comment_def)
next
  case (Some user)
  show ?thesis
  proof (cases b)
    case None
    with Some assms show ?thesis by (simp add: post_comment_def)
  next
    case b: (Some content)
    obtain r s1 where c: "createComment s v (user_id user) content now = (r, s1)"
      by (cases "createComment s v (user_id user) content now")
    have n1: "list_all (\<lambda>n. \<not> self_notification n) (notifications s1)"
      using createComment_frame [OF c] assms by simp
    show ?thesis
    proof (cases r)
      case (Inl e)
      with Some b c n1 show ?thesis by (simp add: post_comment_def)
    next
      case (Inr comment)
      show ?thesis
      proof (cases "getVibeById s1 v")
        case None
        with Some b c Inr n1 show ?thesis by (simp add: post_comment_def)
      next
        case vibe: (Some vibe)
        show ?thesis
        proof (cases "vibe_userId vibe \<noteq> user_id user")
          case False
          with Some b c Inr vibe n1 show ?thesis by (simp add: post_comment_def)
        next
          case True
          obtain r2 s2 where cn: "createNotification s1 (vibe_userId vibe) ''comment''
               (Some (user_id user)) (Some v) (Some content) False now = (r2, s2)"
            by (cases "createNotification s1 (vibe_userId vibe) ''comment''
               (Some (user_id user)) (Some v) (Some content) False now")
          have n2: "list_all (\<lambda>n. \<not> self_notification n) (notifications s2)"
            using n1 createNotification_appends [OF cn] True by (rule no_self_append)
          have "snd (post_comment s sess v b now) = s2"
            using Some b c Inr vibe True cn by (cases r2) (simp_all add: post_comment_def)
          with n2 show ?thesis by simp
        qed
      qed
    qed
  qed
qed

text \<open>
  C3. No stored notification has its sender as its recipient.  The message handler (and
  likewise the connection-request handler) stores its notification without the
  comparison that the comment and like handlers make: user 1 sending a message to user 1
  leaves a notification of type message with \<open>userId = 1\<close> and \<open>fromUserId = 1\<close>.
\<close>

theorem post_message_self_notification:
  "deserializeUser db_users (Some 1) = Some (mk_user 1 ''ada'')
   \<and> map (\<lambda>n. (notif_type n, notif_userId n, fromUserId n))
        (notifications (snd (post_message db_users (Some 1) (Some 1) (Some ''gm'') 50)))
       = [(''message'', 1, Some 1)]
   \<and> map self_notification
        (notifications (snd (post_message db_users (Some 1) (Some 1) (Some ''gm'') 50)))
       = [True]"
  by (simp add: post_message_def self_notification_def storage_defs example_defs Let_def)

subsection \<open>The public user record\<close>

text \<open>
  C10. For every stored user, the response of GET /api/users/:id is the stored row with
  the \<open>password\<close> property projected away: the response object has no \<open>password\<close> key, every
  other property is the stored one, and the response does not depend on the stored
  password at all (the same user with another password yields the same response).
\<close>

theorem get_user_by_id_omits_password:
  assumes "getUser s i = Some u"
  shows "\<exists>obj. get_user_by_id s i = Json 200 obj
           \<and> ''password'' \<notin> fst ` set obj
           \<and> (\<forall>k. k \<noteq> ''password'' \<longrightarrow> map_of obj k = map_of (user_object u) k)
           \<and> obj = userWithoutPassword (user_object (u\<lparr>password := p\<rparr>))"
  using assms
  by (simp add: get_user_by_id_def userWithoutPassword_def user_object_def)

theorem get_user_by_id_omits_password_witness:
  "getUser db_users 2 = Some (mk_user 2 ''bob'')
   \<and> get_user_by_id db_users 2 =
       Json 200 [(''id'', JNum 2), (''username'', JStr ''bob''), (''displayName'', JNull),
                 (''bio'', JNull), (''avatarUrl'', JNull), (''createdAt'', JNum 0)]"
  using get_user_by_id_omits_password [of db_users 2 "mk_user 2 ''bob''" "''x''"]
  by (simp add: getUser_def get_user_by_id_def userWithoutPassword_def user_object_def
        json_opt_def db_users_def empty_db_def mk_user_def)

end
